theory Spec2Isabelle
  imports Complex_Main "HOL-Library.Log_Nat"
begin

section \<open>Values and errors\<close>

text \<open>
  The notebooks run under Python 2.7 with numpy and scipy. Their arrays are one-dimensional
  float64 arrays.

  For the frequency-range restriction, the mask and the calibration a finite float is
  modelled by a real number: rounding and overflow are abstracted away there. The
  non-finite values that these steps create themselves (the \<open>np.nan\<close> written into the
  mask, the result of a division by zero in the calibration function) are kept apart in
  the type \<open>npfloat\<close>; the sign of an infinity is not tracked.
\<close>

datatype npfloat = Num real | Infinite | NaN

text \<open>The Python exceptions that the modelled statements can raise.\<close>

datatype py_error = ZeroDivisionError | ValueError | IndexError

section \<open>Double-precision floats\<close>

text \<open>
  The block means of \<open>downbin\<close> are computed in float64 arithmetic, so for them the
  floats are modelled as they are: IEEE 754 binary64 values with round-to-nearest, ties to
  even, every operation rounded once. A value is a finite real, an infinity with its sign,
  or NaN; the two zeros and the NaN payloads are not told apart.
\<close>

datatype fvalue = Fin real | PInf | NInf | QNaN

text \<open>Rounding a real to the nearest integer, a tie going to the even neighbour.\<close>

definition rhe :: "real \<Rightarrow> int" where
  "rhe y =
     (let f = \<lfloor>y\<rfloor>; d = y - of_int f
      in if d < 1 / 2 then f else if 1 / 2 < d then f + 1
         else if even f then f else f + 1)"

text \<open>
  Every finite float64 is an integer multiple of \<open>2 ^ -1074\<close>, the smallest subnormal,
  with at most 53 significant bits. For a magnitude \<open>y\<close> in units of \<open>2 ^ -1074\<close>,
  \<open>ulp_shift y\<close> is the number of low bits that do not fit into 53: the spacing of the
  floats around \<open>y\<close> is \<open>2 ^ ulp_shift y\<close> units (one unit for the subnormals and the
  first binade of the normal numbers).
\<close>

definition ulp_shift :: "real \<Rightarrow> nat" where
  "ulp_shift y = nat (bitlen \<lfloor>y\<rfloor> - 53)"

text \<open>The nearest float of unbounded exponent range, ties to even.\<close>

definition nearest :: "real \<Rightarrow> real" where
  "nearest x =
     (let y = \<bar>x\<bar> * 2 ^ 1074; s = ulp_shift y
      in sgn x * (of_int (rhe (y / 2 ^ s)) * 2 ^ s / 2 ^ 1074))"

text \<open>Rounding to float64: a rounded magnitude of \<open>2 ^ 1024\<close> or more overflows to infinity.\<close>

definition round64 :: "real \<Rightarrow> fvalue" where
  "round64 x =
     (let y = nearest x
      in if 2 ^ 1024 \<le> y then PInf else if y \<le> - (2 ^ 1024) then NInf else Fin y)"

definition is_float64 :: "fvalue \<Rightarrow> bool" where
  "is_float64 v = (case v of Fin x \<Rightarrow> \<bar>x\<bar> < 2 ^ 1024 \<and> nearest x = x | _ \<Rightarrow> True)"

typedef float64 = "{v. is_float64 v}"
  morphisms fval mk_float64
  by (rule exI [of _ QNaN]) (simp add: is_float64_def)

text \<open>The float that a decimal literal or a real number is converted to.\<close>

definition f64 :: "real \<Rightarrow> float64" where
  "f64 x = mk_float64 (round64 x)"

text \<open>Addition: the exact sum of two finite floats is rounded; infinities and NaN propagate.\<close>

fun xadd :: "fvalue \<Rightarrow> fvalue \<Rightarrow> fvalue" where
  "xadd QNaN v = QNaN"
| "xadd u QNaN = QNaN"
| "xadd PInf NInf = QNaN"
| "xadd NInf PInf = QNaN"
| "xadd PInf v = PInf"
| "xadd u PInf = PInf"
| "xadd NInf v = NInf"
| "xadd u NInf = NInf"
| "xadd (Fin a) (Fin b) = round64 (a + b)"

definition f64_add :: "float64 \<Rightarrow> float64 \<Rightarrow> float64" where
  "f64_add a b = mk_float64 (xadd (fval a) (fval b))"

text \<open>Division of a float by the number of items that were summed.\<close>

fun xdiv_count :: "fvalue \<Rightarrow> nat \<Rightarrow> fvalue" where
  "xdiv_count (Fin a) k =
     (if k = 0 then (if a = 0 then QNaN else if 0 < a then PInf else NInf)
      else round64 (a / real k))"
| "xdiv_count PInf k = PInf"
| "xdiv_count NInf k = NInf"
| "xdiv_count QNaN k = QNaN"

definition f64_div_count :: "float64 \<Rightarrow> nat \<Rightarrow> float64" where
  "f64_div_count x k = mk_float64 (xdiv_count (fval x) k)"

section \<open>Downbinning\<close>

text \<open>
  \<^verbatim>\<open>
  def downbin(arr, downsample = 3, shift = 0):
      arr = np.copy(arr[0:])
      max_index = len(arr) / downsample * downsample
      num_intervals = len(arr) / downsample
      return np.mean(arr[:max_index].reshape(num_intervals, downsample), axis = 1)
  \<close>
  In Python 2 the operator \<open>/\<close> on two ints is floor division and raises
  ZeroDivisionError on a zero divisor.
\<close>

definition py_floordiv :: "int \<Rightarrow> int \<Rightarrow> py_error + int" where
  "py_floordiv a b = (if b = 0 then Inl ZeroDivisionError else Inr (a div b))"

text \<open>The slice \<open>arr[:m]\<close>: a negative stop counts from the end.\<close>

definition slice_upto :: "'a list \<Rightarrow> int \<Rightarrow> 'a list" where
  "slice_upto xs m =
     (if m < 0 then take (nat (int (length xs) + m)) xs else take (nat m) xs)"

text \<open>The rows of a row-major array of shape \<open>(r, c)\<close>.\<close>

definition rows_of :: "nat \<Rightarrow> nat \<Rightarrow> 'a list \<Rightarrow> 'a list list" where
  "rows_of r c xs = map (\<lambda>i. take c (drop (i * c) xs)) [0..<r]"

text \<open>
  \<open>xs.reshape(r, c)\<close> of numpy. A negative dimension is the unknown one and is inferred
  from the size; two of them, a size that does not fit, or an unknown dimension next to a
  zero one raise ValueError.
\<close>

definition reshape2 :: "'a list \<Rightarrow> int \<Rightarrow> int \<Rightarrow> py_error + 'a list list" where
  "reshape2 xs r c =
     (let n = int (length xs) in
      if r < 0 \<and> c < 0 then Inl ValueError
      else if r < 0 then
        (if c = 0 \<or> n mod c \<noteq> 0 then Inl ValueError
         else Inr (rows_of (nat (n div c)) (nat c) xs))
      else if c < 0 then
        (if r = 0 \<or> n mod r \<noteq> 0 then Inl ValueError
         else Inr (rows_of (nat r) (nat (n div r)) xs))
      else if n \<noteq> r * c then Inl ValueError
      else Inr (rows_of (nat r) (nat c) xs))"

text \<open>
  The sum of one row, as \<open>np.add.reduce\<close> computes it along the contiguous axis of a
  float64 array (numpy's \<open>pairwise_sum\<close>): fewer than 8 items are added one after the
  other, starting from 0; up to 128 items are added into 8 running sums, which are then
  added in pairs, and the items after the last full group of 8 are added one after the
  other; more items are split in two halves, the first of a length divisible by 8.
\<close>

definition add8 :: "float64 list \<Rightarrow> float64 list \<Rightarrow> float64 list" where
  "add8 r chunk = map2 f64_add r chunk"

function pairwise_sum :: "float64 list \<Rightarrow> float64" where
  "pairwise_sum a =
     (let n = length a in
      if n < 8 then foldl f64_add (f64 0) a
      else if n \<le> 128 then
        (let body = n - n mod 8;
             r = foldl add8 (take 8 a) (rows_of (body div 8 - 1) 8 (drop 8 (take body a)));
             res = f64_add (f64_add (f64_add (r ! 0) (r ! 1)) (f64_add (r ! 2) (r ! 3)))
                           (f64_add (f64_add (r ! 4) (r ! 5)) (f64_add (r ! 6) (r ! 7)))
         in foldl f64_add res (drop body a))
      else
        (let n2 = n div 2 - (n div 2) mod 8
         in f64_add (pairwise_sum (take n2 a)) (pairwise_sum (drop n2 a))))"
  by pat_completeness auto
termination
  by (relation "measure length") auto

declare pairwise_sum.simps [simp del]

text \<open>
  \<open>np.mean(rows, axis = 1)\<close>: the sum of every row, added to the initial value 0 of the
  reduction, is divided by the number of items of the row. Inside \<open>downbin\<close> every row
  that reaches the mean has \<open>downsample > 0\<close> items.
\<close>

definition mean :: "float64 list \<Rightarrow> float64" where
  "mean row = f64_div_count (f64_add (f64 0) (pairwise_sum row)) (length row)"

definition mean_axis1 :: "float64 list list \<Rightarrow> float64 list" where
  "mean_axis1 rows = map mean rows"

definition downbin :: "float64 list \<Rightarrow> int \<Rightarrow> int \<Rightarrow> py_error + float64 list" where
  "downbin arr downsample shift =
     (case py_floordiv (int (length arr)) downsample of
        Inl e \<Rightarrow> Inl e
      | Inr q \<Rightarrow>
          (let max_index = q * downsample;
               num_intervals = q
           in case reshape2 (slice_upto arr max_index) num_intervals downsample of
                Inl e \<Rightarrow> Inl e
              | Inr rows \<Rightarrow> Inr (mean_axis1 rows)))"



section \<open>Element-wise arithmetic\<close>

text \<open>
  A binary operator on two one-dimensional numpy arrays works element by element; an array
  of length one is broadcast against the other, and any other pair of different lengths
  raises ValueError.
\<close>

definition np_binop :: "('a \<Rightarrow> 'b \<Rightarrow> 'c) \<Rightarrow> 'a list \<Rightarrow> 'b list \<Rightarrow> py_error + 'c list" where
  "np_binop f xs ys =
     (if length xs = length ys then Inr (map2 f xs ys)
      else if length xs = 1 then Inr (map (f (hd xs)) ys)
      else if length ys = 1 then Inr (map (\<lambda>x. f x (hd ys)) xs)
      else Inl ValueError)"

text \<open>Multiplication of floats: NaN is absorbing and zero times an infinity is NaN.\<close>

fun fmul :: "npfloat \<Rightarrow> npfloat \<Rightarrow> npfloat" where
  "fmul NaN y = NaN"
| "fmul x NaN = NaN"
| "fmul (Num a) (Num b) = Num (a * b)"
| "fmul Infinite (Num b) = (if b = 0 then NaN else Infinite)"
| "fmul (Num a) Infinite = (if a = 0 then NaN else Infinite)"
| "fmul Infinite Infinite = Infinite"

text \<open>Division of two finite floats: numpy does not raise on a zero divisor.\<close>

definition fdiv :: "real \<Rightarrow> real \<Rightarrow> npfloat" where
  "fdiv a b = (if b \<noteq> 0 then Num (a / b) else if a = 0 then NaN else Infinite)"

section \<open>Frequency-range restriction\<close>

text \<open>
  \<open>np.where(np.logical_and(freqs >= lower, freqs <= upper))\<close>: the indices, in
  increasing order, of the channels inside the closed range.
\<close>

definition np_where_between :: "real list \<Rightarrow> real \<Rightarrow> real \<Rightarrow> nat list" where
  "np_where_between freqs lower upper =
     filter (\<lambda>i. freqs ! i \<ge> lower \<and> freqs ! i \<le> upper) [0..<length freqs]"

text \<open>\<open>xs[locs]\<close>: an index out of range raises IndexError.\<close>

definition take_locs :: "'a list \<Rightarrow> nat list \<Rightarrow> py_error + 'a list" where
  "take_locs xs locs =
     (if list_all (\<lambda>i. i < length xs) locs then Inr (map (nth xs) locs)
      else Inl IndexError)"

text \<open>
  The Effelsberg notebook restricts a band by three assignments, each of them binding the
  name to the restricted array:
  \<^verbatim>\<open>
  LBand_Locs = np.where(np.logical_and(LBand_Freqs >= 1.28, LBand_Freqs <= 1.46))
  LBand_Freqs = LBand_Freqs[LBand_Locs]
  LBand_On_Data = LBand_On_Data[LBand_Locs]
  LBand_Off_Data = LBand_Off_Data[LBand_Locs]
  \<close>
  and the same for the S band with the bounds 2.4 and 2.7. The bounds are parameters here.
\<close>

record band =
  Freqs :: "real list"
  On_Data :: "real list"
  Off_Data :: "real list"

definition reduce_band :: "real \<Rightarrow> real \<Rightarrow> band \<Rightarrow> py_error + band" where
  "reduce_band lower upper b =
     (let Locs = np_where_between (Freqs b) lower upper in
      case take_locs (Freqs b) Locs of
        Inl e \<Rightarrow> Inl e
      | Inr f \<Rightarrow>
         (case take_locs (On_Data b) Locs of
            Inl e \<Rightarrow> Inl e
          | Inr on \<Rightarrow>
             (case take_locs (Off_Data b) Locs of
                Inl e \<Rightarrow> Inl e
              | Inr off \<Rightarrow> Inr \<lparr>Freqs = f, On_Data = on, Off_Data = off\<rparr>)))"

section \<open>Interference-band mask\<close>

definition ones_like :: "'a list \<Rightarrow> npfloat list" where
  "ones_like xs = replicate (length xs) (Num 1)"

text \<open>\<open>xs[locs] = v\<close>: an index out of range raises IndexError.\<close>

definition np_put :: "'a list \<Rightarrow> nat list \<Rightarrow> 'a \<Rightarrow> py_error + 'a list" where
  "np_put xs locs v =
     (if list_all (\<lambda>i. i < length xs) locs then Inr (fold (\<lambda>i ys. ys[i := v]) locs xs)
      else Inl IndexError)"

text \<open>
  \<^verbatim>\<open>
  mask_locs = np.where(np.logical_and(M31_Freqs >= 1.2, M31_Freqs <= 1.34))
  mask = np.ones_like(M31_Freqs)
  mask[mask_locs] = np.nan
  \<close>
\<close>

definition freq_mask :: "real list \<Rightarrow> real \<Rightarrow> real \<Rightarrow> py_error + npfloat list" where
  "freq_mask freqs mlo mhi =
     (let mask_locs = np_where_between freqs mlo mhi;
          mask = ones_like freqs
      in np_put mask mask_locs NaN)"

section \<open>The reduction cell of the GBT notebook\<close>

text \<open>
  \<^verbatim>\<open>
  locs = np.where(np.logical_and(M31_Freqs >= 1.15, M31_Freqs <= 1.73))
  for item in [M31_Freqs, M31_AntennaTemp, M31_Sig, M31_Ref,
               M31_SigAccept, M31_RefAccept, Cal_Func]:
      item = item[locs]
  mask_locs = ...; mask = ...; mask[mask_locs] = np.nan
  \<close>
  The names of the notebook are the fields of the environment. The loop binds \<open>item\<close> to
  each array in turn and then rebinds \<open>item\<close> to the restricted array; no other name is
  assigned in its body.
\<close>

record gbt_env =
  M31_Freqs :: "real list"
  M31_AntennaTemp :: "real list"
  M31_Sig :: "real list"
  M31_Ref :: "real list"
  M31_SigAccept :: "real list"
  M31_RefAccept :: "real list"
  Cal_Func :: "npfloat list"
  item :: "npfloat list"
  mask :: "npfloat list"

fun for_item :: "nat list \<Rightarrow> npfloat list list \<Rightarrow> npfloat list \<Rightarrow> py_error + npfloat list" where
  "for_item locs [] it = Inr it"
| "for_item locs (x # xs) it =
     (case take_locs x locs of Inl e \<Rightarrow> Inl e | Inr y \<Rightarrow> for_item locs xs y)"

definition reduce_and_mask :: "real \<Rightarrow> real \<Rightarrow> real \<Rightarrow> real \<Rightarrow> gbt_env \<Rightarrow> py_error + gbt_env" where
  "reduce_and_mask lower upper mlo mhi env =
     (let locs = np_where_between (M31_Freqs env) lower upper in
      case for_item locs
             [map Num (M31_Freqs env), map Num (M31_AntennaTemp env), map Num (M31_Sig env),
              map Num (M31_Ref env), map Num (M31_SigAccept env),
              map Num (M31_RefAccept env), Cal_Func env] (item env) of
        Inl e \<Rightarrow> Inl e
      | Inr it \<Rightarrow>
         (case freq_mask (M31_Freqs env) mlo mhi of
            Inl e \<Rightarrow> Inl e
          | Inr m \<Rightarrow> Inr (env\<lparr>item := it, mask := m\<rparr>)))"

definition GBT_reduce :: "gbt_env \<Rightarrow> py_error + gbt_env" where
  "GBT_reduce env = reduce_and_mask (115 / 100) (173 / 100) (12 / 10) (134 / 100) env"

text \<open>The plotted spectrum: \<open>mask*(Cal_Func * M31_AntennaTemp)\<close>.\<close>

definition GBT_calibrated :: "gbt_env \<Rightarrow> py_error + npfloat list" where
  "GBT_calibrated env = np_binop fmul (Cal_Func env) (map Num (M31_AntennaTemp env))"

definition GBT_flux :: "gbt_env \<Rightarrow> py_error + npfloat list" where
  "GBT_flux env =
     (case GBT_calibrated env of
        Inl e \<Rightarrow> Inl e
      | Inr calibrated \<Rightarrow> np_binop fmul (mask env) calibrated)"

text \<open>
  The invariant of the data model: the arrays of one observation are co-indexed, that is,
  they all have the length of the frequency array.
\<close>

definition co_indexed :: "gbt_env \<Rightarrow> bool" where
  "co_indexed env =
     (length (M31_AntennaTemp env) = length (M31_Freqs env)
      \<and> length (M31_Sig env) = length (M31_Freqs env)
      \<and> length (M31_Ref env) = length (M31_Freqs env)
      \<and> length (M31_SigAccept env) = length (M31_Freqs env)
      \<and> length (M31_RefAccept env) = length (M31_Freqs env)
      \<and> length (Cal_Func env) = length (M31_Freqs env))"

section \<open>Median filter and interpolation\<close>

text \<open>
  \<open>ndimage.median_filter(xs, size = n)\<close> of scipy is called with its default arguments:
  \<open>mode = 'reflect'\<close> and \<open>origin = 0\<close>. The array is extended by mirroring it about
  its edges, with the edge sample repeated (\<open>d c b a | a b c d | d c b a\<close>), the window of
  output \<open>i\<close> covers the positions \<open>i - n div 2\<close> up to \<open>i - n div 2 + n - 1\<close>, and the
  output is the element of rank \<open>n div 2\<close> of the sorted window.
\<close>

definition reflect_index :: "nat \<Rightarrow> int \<Rightarrow> nat" where
  "reflect_index n j =
     (let m = j mod (2 * int n) in if m < int n then nat m else nat (2 * int n - 1 - m))"

definition window :: "(nat \<Rightarrow> int \<Rightarrow> nat) \<Rightarrow> real list \<Rightarrow> nat \<Rightarrow> nat \<Rightarrow> real list" where
  "window pad xs wsize i =
     map (\<lambda>d. xs ! pad (length xs) (int i + int d - int (wsize div 2))) [0..<wsize]"

definition median_filter :: "real list \<Rightarrow> nat \<Rightarrow> real list" where
  "median_filter xs wsize =
     map (\<lambda>i. sort (window reflect_index xs wsize i) ! (wsize div 2)) [0..<length xs]"

text \<open>
  The filter as the specification words it, "edge-padded by clamping to boundary values":
  a position outside the array reads the nearest edge sample (\<open>a a a a | a b c d | d d d d\<close>).
\<close>

definition clamp_index :: "nat \<Rightarrow> int \<Rightarrow> nat" where
  "clamp_index n j = nat (max 0 (min (int n - 1) j))"

definition spec_median_filter_clamped :: "real list \<Rightarrow> nat \<Rightarrow> real list" where
  "spec_median_filter_clamped xs wsize =
     map (\<lambda>i. sort (window clamp_index xs wsize i) ! (wsize div 2)) [0..<length xs]"

text \<open>
  What it means for \<open>v\<close> to be a median of a window: it is one of the samples, and more
  than half of the samples are at most \<open>v\<close> and more than half are at least \<open>v\<close>.
\<close>

definition is_median :: "real \<Rightarrow> real list \<Rightarrow> bool" where
  "is_median v ws =
     (v \<in> set ws
      \<and> length ws < 2 * length (filter (\<lambda>x. x \<le> v) ws)
      \<and> length ws < 2 * length (filter (\<lambda>x. v \<le> x) ws))"

text \<open>
  \<open>np.interp(x, xp, fp)\<close> for increasing sample points \<open>xp\<close>: piecewise linear between
  the sample points, the first value to the left of them and the last value to the right.
  No sample point, or \<open>fp\<close> of another length than \<open>xp\<close>, raises ValueError.
\<close>

fun interp_at :: "real \<Rightarrow> (real \<times> real) list \<Rightarrow> real" where
  "interp_at x [] = 0"
| "interp_at x [(x0, y0)] = y0"
| "interp_at x ((x0, y0) # (x1, y1) # ps) =
     (if x \<le> x0 then y0
      else if x < x1 then (y1 - y0) / (x1 - x0) * (x - x0) + y0
      else interp_at x ((x1, y1) # ps))"

definition np_interp :: "real list \<Rightarrow> real list \<Rightarrow> real list \<Rightarrow> py_error + real list" where
  "np_interp x xp fp =
     (if xp = [] \<or> length fp \<noteq> length xp then Inl ValueError
      else Inr (map (\<lambda>v. interp_at v (zip xp fp)) x))"

section \<open>Calibration function\<close>

text \<open>
  GBT:
  \<^verbatim>\<open>Cal_Func = load.get_expected(Cal_Freqs, '3C48') / ndimage.median_filter(Cal_AntennaTemp, size = 31)\<close>
\<close>

definition GBT_smoothed :: "real list \<Rightarrow> real list" where
  "GBT_smoothed Cal_AntennaTemp = median_filter Cal_AntennaTemp 31"


text \<open>
  Effelsberg:
  \<^verbatim>\<open>SBand_Cal = np.interp(SBand_Freqs, Cal_Freqs, Cal_FD) / ndimage.median_filter(SBand_On_Data, size = 201)\<close>
  and the same for the L band; the plotted spectrum is \<open>SBand_Cal * SBand_On_Data\<close>.
\<close>

definition Band_smoothed :: "band \<Rightarrow> real list" where
  "Band_smoothed b = median_filter (On_Data b) 201"

definition Band_Cal :: "band \<Rightarrow> real list \<Rightarrow> real list \<Rightarrow> py_error + npfloat list" where
  "Band_Cal b Cal_Freqs Cal_FD =
     (case np_interp (Freqs b) Cal_Freqs Cal_FD of
        Inl e \<Rightarrow> Inl e
      | Inr expected \<Rightarrow> np_binop fdiv expected (Band_smoothed b))"

definition Band_flux :: "band \<Rightarrow> npfloat list \<Rightarrow> py_error + npfloat list" where
  "Band_flux b cal = np_binop fmul cal (map Num (On_Data b))"

text \<open>
  Calibration application as the specification words it: a multiplier that lies on another
  frequency grid than the target is first interpolated linearly onto the target's grid.
\<close>

definition spec_calibration_application ::
    "real list \<Rightarrow> real list \<Rightarrow> real list \<Rightarrow> real list \<Rightarrow> py_error + npfloat list" where
  "spec_calibration_application target_freqs target cal_freqs cal =
     (if cal_freqs = target_freqs then np_binop fmul (map Num cal) (map Num target)
      else case np_interp target_freqs cal_freqs cal of
             Inl e \<Rightarrow> Inl e
           | Inr resampled \<Rightarrow> np_binop fmul (map Num resampled) (map Num target))"

section \<open>Properties of float64 rounding\<close>

lemma rhe_of_int: "rhe (of_int q) = q"
  by (simp add: rhe_def)

lemma rhe_bounds: "\<lfloor>y\<rfloor> \<le> rhe y \<and> rhe y \<le> \<lfloor>y\<rfloor> + 1"
  by (simp add: rhe_def Let_def)

lemma rhe_nonneg: "0 \<le> y \<Longrightarrow> 0 \<le> rhe y"
  using rhe_bounds [of y] by (simp add: order_trans [of 0 "\<lfloor>y\<rfloor>"])

lemma rhe_le: "y < of_int b \<Longrightarrow> rhe y \<le> b"
proof -
  assume "y < of_int b"
  then have "\<lfloor>y\<rfloor> < b" by (simp add: floor_less_iff)
  then show ?thesis using rhe_bounds [of y] by linarith
qed


text \<open>
  A magnitude that is, in units of \<open>2 ^ -1074\<close>, an integer of at most 53 significant bits
  is its own nearest float.
\<close>

lemma nearest_fixed:
  assumes u: "\<bar>x\<bar> * 2 ^ 1074 = of_int (M * 2 ^ t)" and M: "0 \<le> M" "M \<le> 2 ^ 53"
  shows "nearest x = x"
proof (cases "M = 0")
  case True
  with u have "x = 0" by simp
  then show ?thesis by (simp only: nearest_def Let_def sgn_zero mult_zero_left)
next
  case False
  with M have Mp: "0 < M" by simp
  define U :: real where "U = 2 ^ 1074"
  define y where "y = \<bar>x\<bar> * U"
  define s where "s = ulp_shift y"
  have U: "0 < U" by (simp add: U_def)
  have y: "y = of_int (M * 2 ^ t)" using u by (simp only: y_def U_def)
  have fl: "\<lfloor>y\<rfloor> = M * 2 ^ t" unfolding y by (rule floor_of_int)
  have bl: "bitlen \<lfloor>y\<rfloor> = bitlen M + int t"
    unfolding fl using Mp by (rule bitlen_pow2)
  have s: "s = nat (bitlen M + int t - 53)"
    by (simp add: s_def ulp_shift_def bl)
  have "\<exists>q. M * 2 ^ t = q * 2 ^ s"
  proof (cases "bitlen M \<le> 53")
    case True
    then have "s \<le> t" by (simp add: s)
    then have "M * 2 ^ t = (M * 2 ^ (t - s)) * 2 ^ s"
      by (simp add: power_add [symmetric])
    then show ?thesis ..
  next
    case False
    then have "54 \<le> bitlen M" by simp
    then have "2 ^ 53 \<le> M" by (simp add: bitlen_ge_iff_power)
    with M have M53: "M = 2 ^ 53" by simp
    have "bitlen M = 54"
      unfolding M53 using bitlen_pow2 [of 1 53] by (simp add: bitlen_def floorlog_def)
    then have "s = Suc t" by (simp add: s)
    then have "M * 2 ^ t = 2 ^ 52 * 2 ^ s"
      by (simp add: M53)
    then show ?thesis ..
  qed
  then obtain q where q: "M * 2 ^ t = q * 2 ^ s" ..
  have "y / 2 ^ s = of_int q"
    unfolding y q by simp
  then have "of_int (rhe (y / 2 ^ s)) * 2 ^ s = y"
    by (simp add: rhe_of_int y q)
  moreover have "nearest x = sgn x * (of_int (rhe (y / 2 ^ s)) * 2 ^ s / U)"
    by (simp only: nearest_def Let_def y_def s_def U_def)
  ultimately have "nearest x = sgn x * (y / U)"
    by simp
  also have "\<dots> = x"
    using U by (simp add: y_def sgn_real_def)
  finally show ?thesis .
qed

lemma nearest_units:
  "\<exists>M t. \<bar>nearest x\<bar> * 2 ^ 1074 = of_int (M * 2 ^ t) \<and> 0 \<le> M \<and> M \<le> 2 ^ 53"
proof -
  define U :: real where "U = 2 ^ 1074"
  define y where "y = \<bar>x\<bar> * U"
  define s where "s = ulp_shift y"
  define m where "m = rhe (y / 2 ^ s)"
  have U: "0 < U" by (simp add: U_def)
  have y0: "0 \<le> y" using U by (simp add: y_def)
  have m0: "0 \<le> m" unfolding m_def using y0 by (intro rhe_nonneg) simp
  have "bitlen \<lfloor>y\<rfloor> \<le> 53 + int s"
    by (simp add: s_def ulp_shift_def)
  then have "\<lfloor>y\<rfloor> < 2 ^ (53 + s)"
    by (simp add: bitlen_le_iff_power nat_add_distrib)
  then have "y < 2 ^ (53 + s)"
    by (simp add: floor_less_iff)
  then have "y / 2 ^ s < of_int (2 ^ 53)"
    by (simp add: power_add divide_less_eq)
  then have m53: "m \<le> 2 ^ 53" unfolding m_def by (rule rhe_le)
  have "nearest x = sgn x * (of_int m * 2 ^ s / U)"
    by (simp only: nearest_def Let_def y_def s_def m_def U_def)
  then have "\<bar>nearest x\<bar> * U = \<bar>sgn x\<bar> * of_int (m * 2 ^ s)"
    using m0 U by (simp add: abs_mult)
  moreover have "\<bar>sgn x\<bar> = (if x = 0 then 0 else 1)"
    by (simp add: sgn_real_def)
  ultimately have "\<bar>nearest x\<bar> * U = of_int ((if x = 0 then 0 else m) * 2 ^ s)"
    by simp
  then have "\<bar>nearest x\<bar> * 2 ^ 1074 = of_int ((if x = 0 then 0 else m) * 2 ^ s)"
    by (simp only: U_def)
  with m0 m53 show ?thesis
    by (intro exI [of _ "if x = 0 then 0 else m"] exI [of _ s]) simp
qed

lemma nearest_idem: "nearest (nearest x) = nearest x"
proof -
  obtain M t where "\<bar>nearest x\<bar> * 2 ^ 1074 = of_int (M * 2 ^ t)" "0 \<le> M" "M \<le> 2 ^ 53"
    using nearest_units [of x] by blast
  then show ?thesis by (rule nearest_fixed)
qed

lemma is_float64_Fin: "is_float64 (Fin x) \<longleftrightarrow> \<bar>x\<bar> < 2 ^ 1024 \<and> nearest x = x"
  by (simp only: is_float64_def fvalue.case)

lemma is_float64_special: "is_float64 PInf" "is_float64 NInf" "is_float64 QNaN"
  by (simp_all only: is_float64_def fvalue.case)

lemma is_float64_round64: "is_float64 (round64 x)"
proof -
  define B :: real where "B = 2 ^ 1024"
  have fin: "is_float64 (Fin (nearest x))" if "\<not> B \<le> nearest x" "\<not> nearest x \<le> - B"
  proof -
    from that have "\<bar>nearest x\<bar> < B" by (simp add: abs_less_iff)
    then show ?thesis
      unfolding is_float64_Fin using nearest_idem [of x] by (simp only: B_def simp_thms)
  qed
  have "is_float64 (if B \<le> nearest x then PInf else if nearest x \<le> - B then NInf
          else Fin (nearest x))"
    using fin by (simp add: is_float64_special)
  then show ?thesis
    by (simp only: round64_def Let_def B_def)
qed

lemma is_float64_xadd: "is_float64 (xadd u v)"
  by (cases u; cases v) (simp_all add: is_float64_round64 is_float64_special)


lemma fval_f64: "fval (f64 x) = round64 x"
  by (simp add: f64_def mk_float64_inverse is_float64_round64)

lemma fval_f64_add: "fval (f64_add a b) = xadd (fval a) (fval b)"
  by (simp add: f64_add_def mk_float64_inverse is_float64_xadd)


lemma is_float64_fval: "is_float64 (fval x)"
  using fval [of x] by simp

lemma round64_fixed: "is_float64 (Fin a) \<Longrightarrow> round64 a = Fin a"
proof -
  define B :: real where "B = 2 ^ 1024"
  assume "is_float64 (Fin a)"
  then have a: "\<bar>a\<bar> < B" "nearest a = a"
    by (simp_all only: is_float64_Fin B_def)
  then have "(if B \<le> nearest a then PInf else if nearest a \<le> - B then NInf
      else Fin (nearest a)) = Fin a"
    by (simp add: abs_less_iff)
  then show ?thesis
    by (simp only: round64_def Let_def B_def)
qed

text \<open>Adding the float 0 and dividing by the count 1 change no float.\<close>

lemma xadd_zero: "is_float64 v \<Longrightarrow> xadd (Fin 0) v = v"
  by (cases v) (simp_all add: round64_fixed)

lemma xdiv_count_one: "is_float64 v \<Longrightarrow> xdiv_count v 1 = v"
  by (cases v) (simp_all add: round64_fixed)

lemma round64_zero: "round64 0 = Fin 0"
proof -
  have "nearest 0 = 0"
    by (simp only: nearest_def Let_def sgn_zero mult_zero_left)
  then show ?thesis
    by (simp add: round64_def)
qed

lemma f64_add_zero: "f64_add (f64 0) x = x"
  by (simp add: f64_add_def fval_f64 round64_zero xadd_zero is_float64_fval fval_inverse)

lemma f64_div_count_one: "f64_div_count x 1 = x"
  using xdiv_count_one [OF is_float64_fval, of x]
  by (simp add: f64_div_count_def fval_inverse)

lemma pairwise_sum_short: "length a < 8 \<Longrightarrow> pairwise_sum a = foldl f64_add (f64 0) a"
  by (subst pairwise_sum.simps) simp

lemma mean_single: "mean [x] = x"
  using f64_div_count_one [of x]
  by (simp add: mean_def pairwise_sum_short f64_add_zero)

text \<open>An integer of at most 53 bits, scaled by a power of two, is a float.\<close>

lemma round64_dyadic:
  assumes m: "\<bar>m\<bar> \<le> 2 ^ 53" and r: "\<bar>of_int m * 2 ^ e :: real\<bar> < 2 ^ 1024"
  shows "round64 (of_int m * 2 ^ e) = Fin (of_int m * 2 ^ e)"
proof -
  have "(of_int (\<bar>m\<bar> * 2 ^ (e + 1074)) :: real) = \<bar>of_int m\<bar> * (2 ^ e * 2 ^ 1074)"
    by (simp only: of_int_mult of_int_power of_int_abs power_add of_int_numeral)
  moreover have "\<bar>of_int m * 2 ^ e :: real\<bar> = \<bar>of_int m\<bar> * 2 ^ e"
    by (simp add: abs_mult)
  ultimately have "\<bar>of_int m * 2 ^ e :: real\<bar> * 2 ^ 1074 = of_int (\<bar>m\<bar> * 2 ^ (e + 1074))"
    by (simp only: mult.assoc)
  then have "nearest (of_int m * 2 ^ e) = of_int m * 2 ^ e"
    by (rule nearest_fixed) (use m in simp_all)
  with r have "is_float64 (Fin (of_int m * 2 ^ e))"
    by (simp only: is_float64_Fin simp_thms)
  then show ?thesis by (rule round64_fixed)
qed

lemma round64_int:
  assumes "\<bar>m\<bar> \<le> 2 ^ 53"
  shows "round64 (of_int m) = Fin (of_int m)"
proof -
  have "\<bar>of_int m :: real\<bar> \<le> 2 ^ 53"
    using assms by (metis of_int_abs of_int_le_numeral_power_cancel_iff)
  also have "\<dots> < (2 ^ 1024 :: real)"
    by (rule power_strict_increasing) simp_all
  finally have "\<bar>of_int m * 2 ^ 0 :: real\<bar> < 2 ^ 1024" by simp
  from round64_dyadic [OF assms this] show ?thesis by simp
qed


lemma f64_add_exact:
  assumes "round64 a = Fin a" and "round64 b = Fin b"
  shows "f64_add (f64 a) (f64 b) = f64 (a + b)"
proof -
  have "f64_add (f64 a) (f64 b) = mk_float64 (xadd (round64 a) (round64 b))"
    by (simp only: f64_add_def fval_f64)
  also have "\<dots> = mk_float64 (round64 (a + b))"
    using assms by simp
  finally show ?thesis by (simp only: f64_def)
qed

lemma f64_div_count_exact:
  assumes "round64 a = Fin a" and "0 < k"
  shows "f64_div_count (f64 a) k = f64 (a / real k)"
proof -
  have "f64_div_count (f64 a) k = mk_float64 (xdiv_count (round64 a) k)"
    by (simp only: f64_div_count_def fval_f64)
  also have "\<dots> = mk_float64 (round64 (a / real k))"
    using assms by simp
  finally show ?thesis by (simp only: f64_def)
qed



lemma round64_numeral:
  "(numeral n :: int) \<le> 2 ^ 53 \<Longrightarrow> round64 (numeral n) = Fin (numeral n)"
  using round64_int [of "numeral n"] by simp

lemma round64_one: "round64 1 = Fin 1"
  using round64_int [of 1] by simp

section \<open>Properties of downbinning\<close>



lemma downbin_pos:
  assumes "0 < k"
  shows "downbin arr k s =
           Inr (mean_axis1 (rows_of (length arr div nat k) (nat k)
                  (take (length arr div nat k * nat k) arr)))"
proof -
  define n where "n = length arr"
  define kn where "kn = nat k"
  have k: "k = int kn" "0 < kn" using assms by (simp_all add: kn_def)
  have q: "int n div k = int (n div kn)" by (simp add: k zdiv_int)
  have le: "n div kn * kn \<le> n" by simp
  have sl: "slice_upto arr (int (n div kn) * k) = take (n div kn * kn) arr"
    by (simp add: slice_upto_def k flip: of_nat_mult)
  have len: "length (take (n div kn * kn) arr) = n div kn * kn"
    using le by (simp add: n_def)
  have rs: "reshape2 (take (n div kn * kn) arr) (int (n div kn)) k =
              Inr (rows_of (n div kn) kn (take (n div kn * kn) arr))"
    unfolding reshape2_def Let_def len using k by (simp flip: of_nat_mult)
  have fd: "py_floordiv (int n) k = Inr (int (n div kn))"
    using k by (simp add: py_floordiv_def zdiv_int)
  have "downbin arr k s = Inr (mean_axis1 (rows_of (n div kn) kn (take (n div kn * kn) arr)))"
    unfolding downbin_def Let_def n_def [symmetric] fd by (simp add: sl rs)
  then show ?thesis by (simp add: n_def kn_def)
qed















text \<open>
  Ten samples take the branch of the eight running sums: \<open>((1 + 2) + (3 + 4)) + ((5 + 6) +
  (7 + 8))\<close>, then 9 and 10 are added.
\<close>

lemma pairwise_sum_ten: "pairwise_sum (map f64 [1, 2, 3, 4, 5, 6, 7, 8, 9, 10]) = f64 55"
  by (subst pairwise_sum.simps)
     (simp add: rows_of_def add8_def f64_add_exact round64_numeral round64_one)

lemma downbin_ten:
  "downbin (map f64 [1, 2, 3, 4, 5, 6, 7, 8, 9, 10, 11]) 10 0 = Inr [f64 (11 / 2)]"
  using pairwise_sum_ten
  by (simp add: downbin_pos rows_of_def mean_axis1_def mean_def f64_add_zero
        f64_div_count_exact round64_numeral)

lemma downbin_zero: "downbin arr 0 s = Inl ZeroDivisionError"
  by (simp add: downbin_def py_floordiv_def)

lemma downbin_neg:
  assumes "k < 0"
  shows "downbin arr k s = Inl ValueError"
proof (cases "arr = []")
  case True
  then show ?thesis
    using assms by (simp add: downbin_def py_floordiv_def slice_upto_def reshape2_def)
next
  case False
  then have "0 < int (length arr)" by simp
  then have "int (length arr) div k < 0"
    using assms by (simp add: div_neg_pos_less0 neg_imp_zdiv_neg_iff)
  then show ?thesis
    using assms by (simp add: downbin_def py_floordiv_def reshape2_def Let_def)
qed

text \<open>
  With factor 0 the first statement of \<open>downbin\<close>, the integer division, raises
  ZeroDivisionError: an arithmetic error, not the invalid-argument error ValueError.
\<close>

theorem downbin_counterexample:
  "downbin (map f64 [1, 2, 3]) 0 0 = Inl ZeroDivisionError
   \<and> downbin (map f64 [1, 2, 3]) 0 0 \<noteq> Inl ValueError"
  by (simp add: downbin_def py_floordiv_def)

text \<open>
  Claim C7, amended. For a factor \<open>k \<le> 0\<close> \<open>downbin\<close> never returns a value: factor 0
  raises ZeroDivisionError in the integer division, and a negative factor raises ValueError
  in \<open>reshape\<close>, for every input array and shift.
\<close>

theorem downbin_nonpositive_fails:
  assumes "k \<le> 0"
  shows "downbin arr k s = Inl (if k = 0 then ZeroDivisionError else ValueError)"
  using assms downbin_zero [of arr s] downbin_neg [of k arr s] by (cases "k = 0") simp_all

text \<open>The theorem at factor -3, on seven samples and on the empty array.\<close>

theorem downbin_nonpositive_fails_witness:
  "(-3::int) \<le> 0 \<and> downbin (map f64 [1, 2, 3, 4, 5, 6, 7]) (-3) 0 = Inl ValueError
   \<and> downbin [] (-3) 0 = Inl ValueError"
  using downbin_nonpositive_fails [of "-3" "map f64 [1, 2, 3, 4, 5, 6, 7]" 0]
    downbin_nonpositive_fails [of "-3" "[]" 0] by simp

text \<open>
  Claim C9. The result of \<open>downbin\<close> does not depend on its argument \<open>shift\<close>: for every
  array, factor and shift it is the result for shift 0.
\<close>

theorem downbin_shift_independent: "downbin arr k s = downbin arr k 0"
  by (simp add: downbin_def)

lemma take_one_drop: "i < length xs \<Longrightarrow> take (Suc 0) (drop i xs) = [xs ! i]"
  by (simp flip: Cons_nth_drop_Suc)

text \<open>
  Claim C10. \<open>downbin\<close> with factor 1 returns its input array, element for element and
  in length, the empty array included.
\<close>

theorem downbin_one_identity: "downbin arr 1 s = Inr arr"
proof -
  have "mean_axis1 (rows_of (length arr) 1 arr) = arr"
    by (rule nth_equalityI)
       (simp_all add: mean_axis1_def rows_of_def take_one_drop mean_single)
  then show ?thesis
    using downbin_pos [of 1 arr s] by simp
qed

section \<open>Properties of the frequency-range restriction\<close>

lemma set_np_where_between:
  "set (np_where_between freqs lower upper) =
     {i. i < length freqs \<and> lower \<le> freqs ! i \<and> freqs ! i \<le> upper}"
  by (auto simp: np_where_between_def)

lemma np_where_between_bounded:
  "length xs = length freqs \<Longrightarrow>
     list_all (\<lambda>i. i < length xs) (np_where_between freqs lower upper)"
  by (simp add: list_all_iff set_np_where_between)

lemma np_where_between_empty:
  assumes "\<forall>f \<in> set freqs. \<not> (lower \<le> f \<and> f \<le> upper)"
  shows "np_where_between freqs lower upper = []"
proof -
  have "set (np_where_between freqs lower upper) = {}"
    unfolding set_np_where_between using assms nth_mem by blast
  then show ?thesis by simp
qed

lemma take_locs_bounded:
  "list_all (\<lambda>i. i < length xs) locs \<Longrightarrow> take_locs xs locs = Inr (map (nth xs) locs)"
  by (simp add: take_locs_def)

lemma take_locs_Nil: "take_locs xs [] = Inr []"
  by (simp add: take_locs_def)

text \<open>
  The Effelsberg cell on co-indexed arrays: every array is restricted to the same indices,
  the three results have one length, and every frequency kept lies in the range.
\<close>

lemma reduce_band_aligned:
  assumes "length (On_Data b) = length (Freqs b)" and "length (Off_Data b) = length (Freqs b)"
  shows "\<exists>b'. reduce_band lower upper b = Inr b'
           \<and> Freqs b' = map (nth (Freqs b)) (np_where_between (Freqs b) lower upper)
           \<and> On_Data b' = map (nth (On_Data b)) (np_where_between (Freqs b) lower upper)
           \<and> Off_Data b' = map (nth (Off_Data b)) (np_where_between (Freqs b) lower upper)
           \<and> length (On_Data b') = length (Freqs b')
           \<and> length (Off_Data b') = length (Freqs b')
           \<and> (\<forall>f \<in> set (Freqs b'). lower \<le> f \<and> f \<le> upper)"
proof -
  let ?locs = "np_where_between (Freqs b) lower upper"
  have f: "take_locs (Freqs b) ?locs = Inr (map (nth (Freqs b)) ?locs)"
    by (intro take_locs_bounded np_where_between_bounded) simp
  have on: "take_locs (On_Data b) ?locs = Inr (map (nth (On_Data b)) ?locs)"
    by (intro take_locs_bounded np_where_between_bounded assms)
  have off: "take_locs (Off_Data b) ?locs = Inr (map (nth (Off_Data b)) ?locs)"
    by (intro take_locs_bounded np_where_between_bounded assms)
  have "reduce_band lower upper b =
          Inr \<lparr>Freqs = map (nth (Freqs b)) ?locs, On_Data = map (nth (On_Data b)) ?locs,
               Off_Data = map (nth (Off_Data b)) ?locs\<rparr>"
    by (simp add: reduce_band_def Let_def f on off)
  moreover have "\<forall>f \<in> set (map (nth (Freqs b)) ?locs). lower \<le> f \<and> f \<le> upper"
    by (auto simp: set_np_where_between)
  ultimately show ?thesis by simp
qed

text \<open>
  Claim C8. When no channel lies in the closed range, the restriction of a band raises no
  error and returns the empty array for the frequencies and for both co-indexed arrays.
\<close>

theorem reduce_band_no_channel:
  assumes "\<forall>f \<in> set (Freqs b). \<not> (lower \<le> f \<and> f \<le> upper)"
  shows "reduce_band lower upper b = Inr \<lparr>Freqs = [], On_Data = [], Off_Data = []\<rparr>"
  using np_where_between_empty [OF assms]
  by (simp add: reduce_band_def take_locs_Nil)

text \<open>The theorem on a band of two channels, both below the range from 2 to 3.\<close>

theorem reduce_band_no_channel_witness:
  "reduce_band 2 3 \<lparr>Freqs = [1, 11 / 10], On_Data = [5, 6], Off_Data = [7, 8]\<rparr> =
     Inr \<lparr>Freqs = [], On_Data = [], Off_Data = []\<rparr>"
  using reduce_band_no_channel [of "\<lparr>Freqs = [1, 11 / 10], On_Data = [5, 6], Off_Data = [7, 8]\<rparr>" 2 3]
  by simp

lemma for_item_bounded:
  assumes "\<forall>x \<in> set xs. list_all (\<lambda>i. i < length x) locs"
  shows "for_item locs xs it = Inr (if xs = [] then it else map (nth (last xs)) locs)"
  using assms
proof (induction xs arbitrary: it)
  case Nil
  then show ?case by simp
next
  case (Cons x xs)
  then show ?case by (simp add: take_locs_bounded)
qed

lemma length_fold_update: "length (fold (\<lambda>i ys. ys[i := v]) locs xs) = length xs"
  by (induction locs arbitrary: xs) simp_all

lemma nth_fold_update:
  "i < length xs \<Longrightarrow>
     fold (\<lambda>i ys. ys[i := v]) locs xs ! i = (if i \<in> set locs then v else xs ! i)"
proof (induction locs arbitrary: xs)
  case Nil
  then show ?case by simp
next
  case (Cons j locs)
  then show ?case by (cases "i = j") (simp_all add: )
qed

section \<open>Properties of the GBT reduction cell and of the mask\<close>

lemma np_binop_same_length:
  "length xs = length ys \<Longrightarrow> np_binop f xs ys = Inr (map2 f xs ys)"
  by (simp add: np_binop_def)

lemma freq_mask_eq:
  "freq_mask freqs mlo mhi =
     Inr (map (\<lambda>f. if mlo \<le> f \<and> f \<le> mhi then NaN else Num 1) freqs)"
proof -
  let ?locs = "np_where_between freqs mlo mhi"
  have b: "list_all (\<lambda>i. i < length (ones_like freqs)) ?locs"
    by (rule np_where_between_bounded) (simp add: ones_like_def)
  have "fold (\<lambda>i ys. ys[i := NaN]) ?locs (ones_like freqs) =
          map (\<lambda>f. if mlo \<le> f \<and> f \<le> mhi then NaN else Num 1) freqs"
    by (rule nth_equalityI)
       (simp_all add: length_fold_update nth_fold_update ones_like_def set_np_where_between)
  then show ?thesis
    using b by (simp add: freq_mask_def np_put_def)
qed

lemma reduce_and_mask_co_indexed:
  assumes "co_indexed env"
  shows "reduce_and_mask lower upper mlo mhi env =
           Inr (env\<lparr>item := map (nth (Cal_Func env)) (np_where_between (M31_Freqs env) lower upper),
                    mask := map (\<lambda>f. if mlo \<le> f \<and> f \<le> mhi then NaN else Num 1)
                              (M31_Freqs env)\<rparr>)"
proof -
  let ?locs = "np_where_between (M31_Freqs env) lower upper"
  let ?items = "[map Num (M31_Freqs env), map Num (M31_AntennaTemp env), map Num (M31_Sig env),
              map Num (M31_Ref env), map Num (M31_SigAccept env),
              map Num (M31_RefAccept env), Cal_Func env]"
  have "\<forall>x \<in> set ?items. list_all (\<lambda>i. i < length x) ?locs"
    using assms by (auto simp: co_indexed_def intro!: np_where_between_bounded)
  then have "for_item ?locs ?items (item env) = Inr (map (nth (Cal_Func env)) ?locs)"
    by (subst for_item_bounded) simp_all
  then show ?thesis
    by (simp add: reduce_and_mask_def Let_def freq_mask_eq)
qed

text \<open>
  Whenever the reduction cell of the GBT notebook runs through, the seven arrays named in
  its loop are what they were before: only \<open>item\<close> and \<open>mask\<close> are assigned.
\<close>

lemma reduce_and_mask_frame:
  assumes "reduce_and_mask lower upper mlo mhi env = Inr env'"
  shows "M31_Freqs env' = M31_Freqs env \<and> M31_AntennaTemp env' = M31_AntennaTemp env
       \<and> M31_Sig env' = M31_Sig env \<and> M31_Ref env' = M31_Ref env
       \<and> M31_SigAccept env' = M31_SigAccept env \<and> M31_RefAccept env' = M31_RefAccept env
       \<and> Cal_Func env' = Cal_Func env"
  using assms by (auto simp: reduce_and_mask_def Let_def split: sum.splits)

text \<open>
  Claim C1 at a failing input. The GBT notebook restricts to the range from 1.15 to 1.73
  with the loop \<open>for item in [...]: item = item[locs]\<close>. On the channels 1.0, 1.2 and 1.8
  only the middle channel lies in the range; after the cell the frequency array and the
  antenna temperatures still have all three channels, 1.0 and 1.8 among them, and only
  the loop variable holds a restricted array.
\<close>

theorem GBT_reduce_restricts_nothing:
  "\<exists>env'. GBT_reduce \<lparr>M31_Freqs = [1, 12 / 10, 18 / 10], M31_AntennaTemp = [7, 8, 9],
             M31_Sig = [1, 2, 3], M31_Ref = [4, 5, 6], M31_SigAccept = [1, 1, 1],
             M31_RefAccept = [1, 1, 1], Cal_Func = [Num 2, Num 3, Num 4],
             item = [], mask = []\<rparr> = Inr env'
     \<and> M31_Freqs env' = [1, 12 / 10, 18 / 10]
     \<and> M31_AntennaTemp env' = [7, 8, 9]
     \<and> Cal_Func env' = [Num 2, Num 3, Num 4]
     \<and> item env' = [Num 3]
     \<and> M31_Freqs env' ! 0 < 115 / 100
     \<and> 173 / 100 < M31_Freqs env' ! 2"
  by (simp add: GBT_reduce_def reduce_and_mask_co_indexed co_indexed_def
        np_where_between_def upt_rec)

text \<open>
  Claim C5. The mask has the length of the frequency array, is NaN at every channel
  inside the blanked range and 1 at every other channel; multiplying an array of that
  length by the mask gives an array of the same length, however many channels are
  blanked, in particular for the spectrum that the GBT notebook plots; and the channels
  1.0, 1.2, 1.25, 1.3, 1.4 with the blanked range from 1.2 to 1.3 give the mask
  \<open>[1, NaN, NaN, NaN, 1]\<close>.
\<close>

theorem freq_mask_same_length:
  "\<exists>m. freq_mask freqs mlo mhi = Inr m
      \<and> length m = length freqs
      \<and> (\<forall>i < length freqs.
            m ! i = (if mlo \<le> freqs ! i \<and> freqs ! i \<le> mhi then NaN else Num 1))
      \<and> (\<forall>arr. length arr = length freqs \<longrightarrow>
            (\<exists>r. np_binop fmul m arr = Inr r \<and> length r = length arr))
      \<and> (\<forall>env. M31_Freqs env = freqs \<and> co_indexed env \<longrightarrow>
            (\<exists>env' r. reduce_and_mask lower upper mlo mhi env = Inr env' \<and> mask env' = m
               \<and> GBT_flux env' = Inr r \<and> length r = length (M31_AntennaTemp env)))
      \<and> freq_mask [1, 12 / 10, 125 / 100, 13 / 10, 14 / 10] (12 / 10) (13 / 10) =
            Inr [Num 1, NaN, NaN, NaN, Num 1]"
proof -
  define m where "m = map (\<lambda>f. if mlo \<le> f \<and> f \<le> mhi then NaN else Num 1) freqs"
  have run: "freq_mask freqs mlo mhi = Inr m"
    by (simp add: freq_mask_eq m_def)
  have len: "length m = length freqs"
    by (simp add: m_def)
  have val: "m ! i = (if mlo \<le> freqs ! i \<and> freqs ! i \<le> mhi then NaN else Num 1)"
    if "i < length freqs" for i
    using that by (simp add: m_def)
  have mul: "\<exists>r. np_binop fmul m arr = Inr r \<and> length r = length arr"
    if "length arr = length freqs" for arr
    using that len by (simp add: np_binop_same_length)
  have cell: "\<exists>env' r. reduce_and_mask lower upper mlo mhi env = Inr env' \<and> mask env' = m
               \<and> GBT_flux env' = Inr r \<and> length r = length (M31_AntennaTemp env)"
    if "M31_Freqs env = freqs \<and> co_indexed env" for env
  proof -
    from that have f: "M31_Freqs env = freqs" and co: "co_indexed env" by simp_all
    define env' where "env' = env\<lparr>item := map (nth (Cal_Func env))
        (np_where_between (M31_Freqs env) lower upper), mask := m\<rparr>"
    have r: "reduce_and_mask lower upper mlo mhi env = Inr env'"
      by (simp add: reduce_and_mask_co_indexed [OF co] env'_def m_def f)
    have l1: "length (Cal_Func env') = length (M31_AntennaTemp env')"
      and l2: "length (M31_AntennaTemp env') = length freqs"
      using co f by (simp_all add: env'_def co_indexed_def)
    have c: "GBT_calibrated env' =
               Inr (map2 fmul (Cal_Func env') (map Num (M31_AntennaTemp env')))"
      using l1 by (simp add: GBT_calibrated_def np_binop_same_length)
    have mk: "mask env' = m" and at: "M31_AntennaTemp env' = M31_AntennaTemp env"
      by (simp_all add: env'_def)
    have "GBT_flux env' =
            Inr (map2 fmul m (map2 fmul (Cal_Func env') (map Num (M31_AntennaTemp env'))))"
      unfolding GBT_flux_def c mk using l1 l2 len by (simp add: np_binop_same_length)
    then show ?thesis
      using r l1 l2 len mk at by simp
  qed
  have ex: "freq_mask [1, 12 / 10, 125 / 100, 13 / 10, 14 / 10] (12 / 10) (13 / 10) =
            Inr [Num 1, NaN, NaN, NaN, Num 1]"
    by (simp add: freq_mask_eq)
  show ?thesis
    using run len val mul cell ex by blast
qed

text \<open>
  The theorem on three channels, the middle one blanked, for the mask alone, for its
  product with an array, and for the reduction cell followed by the plotted spectrum.
\<close>

theorem freq_mask_same_length_witness:
  "freq_mask [1, 5 / 4, 2] (12 / 10) (13 / 10) = Inr [Num 1, NaN, Num 1]
   \<and> (\<exists>r. np_binop fmul [Num 1, NaN, Num 1] [Num 4, Num 5, Infinite] = Inr r \<and> length r = 3)
   \<and> (\<exists>env' r. reduce_and_mask 1 3 (12 / 10) (13 / 10)
          \<lparr>M31_Freqs = [1, 5 / 4, 2], M31_AntennaTemp = [7, 8, 9], M31_Sig = [1, 2, 3],
           M31_Ref = [4, 5, 6], M31_SigAccept = [1, 1, 1], M31_RefAccept = [1, 1, 1],
           Cal_Func = [Num 2, Num 3, Num 4], item = [], mask = []\<rparr> = Inr env'
        \<and> mask env' = [Num 1, NaN, Num 1] \<and> GBT_flux env' = Inr r \<and> length r = 3)"
proof -
  let ?f = "[1, 5 / 4, 2] :: real list"
  let ?env = "\<lparr>M31_Freqs = ?f, M31_AntennaTemp = [7, 8, 9], M31_Sig = [1, 2, 3],
           M31_Ref = [4, 5, 6], M31_SigAccept = [1, 1, 1], M31_RefAccept = [1, 1, 1],
           Cal_Func = [Num 2, Num 3, Num 4], item = [], mask = []\<rparr>"
  obtain m where run: "freq_mask ?f (12 / 10) (13 / 10) = Inr m"
    and len: "length m = length ?f"
    and val: "\<forall>i < length ?f. m ! i =
        (if 12 / 10 \<le> ?f ! i \<and> ?f ! i \<le> 13 / 10 then NaN else Num 1)"
    and mul: "\<forall>arr. length arr = length ?f \<longrightarrow>
        (\<exists>r. np_binop fmul m arr = Inr r \<and> length r = length arr)"
    and cell: "\<forall>env. M31_Freqs env = ?f \<and> co_indexed env \<longrightarrow>
        (\<exists>env' r. reduce_and_mask 1 3 (12 / 10) (13 / 10) env = Inr env' \<and> mask env' = m
           \<and> GBT_flux env' = Inr r \<and> length r = length (M31_AntennaTemp env))"
    using freq_mask_same_length [of ?f "12 / 10" "13 / 10" 1 3] by blast
  have "m ! 0 = Num 1" "m ! 1 = NaN" "m ! 2 = Num 1"
    using val by simp_all
  then have m: "m = [Num 1, NaN, Num 1]"
    using len by (intro nth_equalityI) (auto simp: less_Suc_eq numeral_3_eq_3 numeral_2_eq_2)
  have "\<exists>r. np_binop fmul m [Num 4, Num 5, Infinite] = Inr r \<and> length r = 3"
    using mul [rule_format, of "[Num 4, Num 5, Infinite]"] by (simp add: numeral_3_eq_3)
  moreover have "\<exists>env' r. reduce_and_mask 1 3 (12 / 10) (13 / 10) ?env = Inr env'
      \<and> mask env' = m \<and> GBT_flux env' = Inr r \<and> length r = 3"
    using cell [rule_format, of ?env] by (simp add: co_indexed_def numeral_3_eq_3)
  ultimately show ?thesis
    using run unfolding m by simp
qed

section \<open>Properties of the median filter\<close>

lemma length_filter_take_le: "length (filter P (take m ys)) \<le> length (filter P ys)"
proof -
  have "length (filter P ys) = length (filter P (take m ys @ drop m ys))" by simp
  also have "\<dots> = length (filter P (take m ys)) + length (filter P (drop m ys))"
    unfolding filter_append length_append ..
  finally show ?thesis by simp
qed

lemma length_filter_drop_le: "length (filter P (drop m ys)) \<le> length (filter P ys)"
proof -
  have "length (filter P ys) = length (filter P (take m ys @ drop m ys))" by simp
  also have "\<dots> = length (filter P (take m ys)) + length (filter P (drop m ys))"
    unfolding filter_append length_append ..
  finally show ?thesis by simp
qed

lemma length_filter_sort:
  fixes ws :: "real list"
  shows "length (filter P (sort ws)) = length (filter P ws)"
  by (simp add: filter_sort)

lemma sorted_rank_is_median:
  fixes ws :: "real list"
  assumes "odd (length ws)"
  shows "is_median (sort ws ! (length ws div 2)) ws"
proof -
  define ys where "ys = sort ws"
  define k where "k = length ws div 2"
  define v where "v = ys ! k"
  have len: "length ys = length ws" and srt: "sorted ys" and st: "set ys = set ws"
    by (simp_all add: ys_def)
  obtain h where h: "length ws = 2 * h + 1"
    using assms by (elim oddE)
  have "k = h" unfolding k_def h by simp
  with h have n: "length ws = 2 * k + 1" by simp
  have k: "k < length ys" using n len by simp
  have "ys ! k \<in> set ys"
    using k by (rule nth_mem)
  then have mem: "v \<in> set ws"
    unfolding v_def st .
  have low: "\<forall>x \<in> set (take (Suc k) ys). x \<le> v"
  proof
    fix x assume "x \<in> set (take (Suc k) ys)"
    then obtain i where i: "i < length (take (Suc k) ys)" and x: "x = take (Suc k) ys ! i"
      unfolding in_set_conv_nth by blast
    from i have ik: "i \<le> k" by simp
    from i x have "x = ys ! i" by simp
    also have "ys ! i \<le> ys ! k"
      using srt ik k by (rule sorted_nth_mono)
    finally show "x \<le> v" unfolding v_def .
  qed
  have high: "\<forall>x \<in> set (drop k ys). v \<le> x"
  proof
    fix x assume "x \<in> set (drop k ys)"
    then obtain i where i: "i < length (drop k ys)" and x: "x = drop k ys ! i"
      unfolding in_set_conv_nth by blast
    from i have ki: "k + i < length ys" by simp
    have "ys ! k \<le> ys ! (k + i)"
      using srt _ ki by (rule sorted_nth_mono) simp
    also from x ki have "ys ! (k + i) = x" by simp
    finally show "v \<le> x" unfolding v_def .
  qed
  have "Suc k = length (filter (\<lambda>x. x \<le> v) (take (Suc k) ys))"
    using low k by (simp add: filter_True)
  also have "\<dots> \<le> length (filter (\<lambda>x. x \<le> v) ys)"
    by (rule length_filter_take_le)
  also have "\<dots> = length (filter (\<lambda>x. x \<le> v) ws)"
    unfolding ys_def by (rule length_filter_sort)
  finally have le: "Suc k \<le> length (filter (\<lambda>x. x \<le> v) ws)" .
  have "Suc k = length (filter (\<lambda>x. v \<le> x) (drop k ys))"
    using high n len by (simp add: filter_True)
  also have "\<dots> \<le> length (filter (\<lambda>x. v \<le> x) ys)"
    by (rule length_filter_drop_le)
  also have "\<dots> = length (filter (\<lambda>x. v \<le> x) ws)"
    unfolding ys_def by (rule length_filter_sort)
  finally have ge: "Suc k \<le> length (filter (\<lambda>x. v \<le> x) ws)" .
  have "length ws < 2 * Suc k"
    unfolding n by simp
  then have "is_median v ws"
    unfolding is_median_def using mem le ge by auto
  then show ?thesis
    by (simp add: v_def ys_def k_def)
qed

lemma length_window: "length (window pad xs w i) = w"
  by (simp add: window_def)

lemma nth_window:
  "d < w \<Longrightarrow> window pad xs w i ! d = xs ! pad (length xs) (int i + int d - int (w div 2))"
  by (simp add: window_def)

lemma length_median_filter: "length (median_filter xs w) = length xs"
  by (simp add: median_filter_def)

lemma nth_median_filter:
  "i < length xs \<Longrightarrow>
     median_filter xs w ! i = sort (window reflect_index xs w i) ! (w div 2)"
  by (simp add: median_filter_def)

lemma median_filter_is_median:
  assumes "odd w" and "i < length xs"
  shows "is_median (median_filter xs w ! i) (window reflect_index xs w i)"
  using sorted_rank_is_median [of "window reflect_index xs w i"] assms
  by (simp add: nth_median_filter length_window)

lemma reflect_index_inside: "j < n \<Longrightarrow> reflect_index n (int j) = j"
  by (simp add: reflect_index_def)

lemma reflect_index_left: "j < n \<Longrightarrow> reflect_index n (- 1 - int j) = j"
proof -
  assume j: "j < n"
  have "(- 1 - int j) mod (2 * int n) = (- 1 - int j + 2 * int n) mod (2 * int n)"
    by simp
  also have "\<dots> = - 1 - int j + 2 * int n"
    using j by (intro mod_pos_pos_trivial) simp_all
  finally show ?thesis using j by (simp add: reflect_index_def)
qed

lemma reflect_index_right: "j < n \<Longrightarrow> reflect_index n (int n + int j) = n - 1 - j"
proof -
  assume j: "j < n"
  have "(int n + int j) mod (2 * int n) = int n + int j"
    using j by (intro mod_pos_pos_trivial) simp_all
  then show ?thesis using j by (simp add: reflect_index_def)
qed

text \<open>
  On sixteen samples whose first is 0 and whose others are 1, the filter of width 31
  returns 1 at the first channel: the mirrored array shows two zeros among the 31 samples
  of the window. Padding by clamping would show sixteen zeros and return 0.
\<close>

theorem smoothing_clamped_counterexample:
  "GBT_smoothed [0, 1, 1, 1, 1, 1, 1, 1, 1, 1, 1, 1, 1, 1, 1, 1] ! 0 = 1
   \<and> spec_median_filter_clamped [0, 1, 1, 1, 1, 1, 1, 1, 1, 1, 1, 1, 1, 1, 1, 1] 31 ! 0 = 0"
  by code_simp

text \<open>
  Claim C3, amended. The median filter of the calibration-function derivation has a fixed
  odd window width, 31 channels in the GBT notebook and 201 in the Effelsberg notebook;
  its output has the length of its input and every output sample is a median of its
  window; and the window reads beyond an edge of the array by mirroring the array about
  that edge (scipy's default mode \<open>reflect\<close>): the sample at distance \<open>j\<close> beyond an edge
  is the sample at distance \<open>j\<close> inside it, the edge sample itself being repeated.
\<close>

theorem smoothing_reflects_at_edges:
  "length (GBT_smoothed xs) = length xs
   \<and> length (Band_smoothed b) = length (On_Data b)
   \<and> odd (length (window reflect_index xs 31 i))
   \<and> odd (length (window reflect_index (On_Data b) 201 i))
   \<and> (\<forall>i < length xs. is_median (GBT_smoothed xs ! i) (window reflect_index xs 31 i))
   \<and> (\<forall>i < length (On_Data b).
         is_median (Band_smoothed b ! i) (window reflect_index (On_Data b) 201 i))
   \<and> (\<forall>d < 31. window reflect_index xs 31 i ! d =
         xs ! reflect_index (length xs) (int i + int d - 15))
   \<and> (\<forall>d < 201. window reflect_index (On_Data b) 201 i ! d =
         On_Data b ! reflect_index (length (On_Data b)) (int i + int d - 100))
   \<and> (\<forall>j < n. reflect_index n (int j) = j
         \<and> reflect_index n (- 1 - int j) = j
         \<and> reflect_index n (int n + int j) = n - 1 - j)"
proof -
  have o31: "odd (31::nat)" and o201: "odd (201::nat)" by simp_all
  have m1: "is_median (GBT_smoothed xs ! i) (window reflect_index xs 31 i)"
    if "i < length xs" for i
    unfolding GBT_smoothed_def using o31 that by (rule median_filter_is_median)
  have m2: "is_median (Band_smoothed b ! i) (window reflect_index (On_Data b) 201 i)"
    if "i < length (On_Data b)" for i
    unfolding Band_smoothed_def using o201 that by (rule median_filter_is_median)
  have w1: "window reflect_index xs 31 i ! d =
         xs ! reflect_index (length xs) (int i + int d - 15)" if "d < 31" for d
    using that by (simp add: nth_window)
  have w2: "window reflect_index (On_Data b) 201 i ! d =
         On_Data b ! reflect_index (length (On_Data b)) (int i + int d - 100)"
    if "d < 201" for d
    using that by (simp add: nth_window)
  have l: "length (GBT_smoothed xs) = length xs"
    "length (Band_smoothed b) = length (On_Data b)"
    "odd (length (window reflect_index xs 31 i))"
    "odd (length (window reflect_index (On_Data b) 201 i))"
    by (simp_all add: GBT_smoothed_def Band_smoothed_def length_median_filter length_window)
  show ?thesis
    using l m1 m2 w1 w2 reflect_index_inside reflect_index_left reflect_index_right
    by blast
qed

text \<open>
  The theorem on sixteen samples: the second output is a median of its window, the
  position 3 left of the array reads the sample 2, and the position 2 right of it the
  sample 13.
\<close>

theorem smoothing_reflects_at_edges_witness:
  "length (GBT_smoothed [5, 3, 8, 1, 9, 2, 7, 4, 6, 0, 5, 3, 8, 1, 9, 2]) = 16
   \<and> is_median (GBT_smoothed [5, 3, 8, 1, 9, 2, 7, 4, 6, 0, 5, 3, 8, 1, 9, 2] ! 1)
        (window reflect_index [5, 3, 8, 1, 9, 2, 7, 4, 6, 0, 5, 3, 8, 1, 9, 2] 31 1)
   \<and> reflect_index 16 (- 3) = 2
   \<and> reflect_index 16 18 = 13"
proof -
  let ?xs = "[5, 3, 8, 1, 9, 2, 7, 4, 6, 0, 5, 3, 8, 1, 9, 2] :: real list"
  note t = smoothing_reflects_at_edges
    [of ?xs "\<lparr>Freqs = [], On_Data = [], Off_Data = []\<rparr>" 0 16]
  have len: "length (GBT_smoothed ?xs) = length ?xs"
    using t by (rule conjunct1)
  have med: "\<forall>i < length ?xs. is_median (GBT_smoothed ?xs ! i) (window reflect_index ?xs 31 i)"
    using t by blast
  have edge: "\<forall>j < 16. reflect_index 16 (int j) = j
         \<and> reflect_index 16 (- 1 - int j) = j
         \<and> reflect_index 16 (int 16 + int j) = 16 - 1 - j"
    using t by blast
  have m: "is_median (GBT_smoothed ?xs ! 1) (window reflect_index ?xs 31 1)"
    using med by simp
  have e: "reflect_index 16 (- 3) = 2" "reflect_index 16 18 = 13"
    using edge [rule_format, of 2] by simp_all
  show ?thesis
    using len m e by simp
qed

section \<open>Properties of the calibration\<close>


lemma np_interp_ok:
  "xp \<noteq> [] \<Longrightarrow> length fp = length xp \<Longrightarrow>
     np_interp x xp fp = Inr (map (\<lambda>v. interp_at v (zip xp fp)) x)"
  by (simp add: np_interp_def)


lemma Band_Cal_aligned:
  assumes "length (On_Data b) = length (Freqs b)" and "Cal_Freqs \<noteq> []"
    and "length Cal_FD = length Cal_Freqs"
  shows "Band_Cal b Cal_Freqs Cal_FD =
           Inr (map2 fdiv (map (\<lambda>v. interp_at v (zip Cal_Freqs Cal_FD)) (Freqs b))
                  (Band_smoothed b))"
  using assms
  by (simp add: Band_Cal_def np_interp_ok np_binop_same_length Band_smoothed_def
        length_median_filter)



text \<open>
  The GBT notebook multiplies the calibration function with the antenna temperature
  channel by channel and never looks at the frequency grid of either. With the target on
  the grid 1, 2 and the multipliers 2, 4 on the grid 1.5, 2.5 it returns 2, 4;
  interpolating the multipliers onto the target's grid first would give 2, 3.
\<close>

theorem calibration_application_counterexample:
  "GBT_calibrated \<lparr>M31_Freqs = [1, 2], M31_AntennaTemp = [1, 1], M31_Sig = [0, 0],
       M31_Ref = [0, 0], M31_SigAccept = [1, 1], M31_RefAccept = [1, 1],
       Cal_Func = [Num 2, Num 4], item = [], mask = [Num 1, Num 1]\<rparr> = Inr [Num 2, Num 4]
   \<and> spec_calibration_application [1, 2] [1, 1] [3 / 2, 5 / 2] [2, 4] = Inr [Num 2, Num 3]"
  by (simp add: GBT_calibrated_def spec_calibration_application_def np_binop_def np_interp_def)

text \<open>
  Claim C6, amended. Calibration application multiplies the multiplier array with the
  target array channel by channel and resamples nothing. In the GBT notebook the
  multiplier lies on the grid of the calibration observation and is used as it is. In
  the Effelsberg notebook the linear interpolation is part of the derivation: the table
  of expected flux densities is interpolated at the frequencies of the target band, so
  that the multiplier is derived on the target's grid. On arrays of equal length the
  calibrated array has the channel count of the target observation.
\<close>

theorem calibration_application_elementwise:
  "(length (Cal_Func env) = length (M31_AntennaTemp env) \<longrightarrow>
      (\<exists>flux. GBT_calibrated env = Inr flux
         \<and> length flux = length (M31_AntennaTemp env)
         \<and> (\<forall>i < length flux.
               flux ! i = fmul (Cal_Func env ! i) (Num (M31_AntennaTemp env ! i)))))
   \<and> (length (On_Data b) = length (Freqs b) \<and> Eff_Freqs \<noteq> []
        \<and> length Eff_FD = length Eff_Freqs \<longrightarrow>
      (\<exists>cal flux. Band_Cal b Eff_Freqs Eff_FD = Inr cal
         \<and> (\<forall>i < length (Freqs b).
               cal ! i = fdiv (interp_at (Freqs b ! i) (zip Eff_Freqs Eff_FD))
                           (Band_smoothed b ! i))
         \<and> Band_flux b cal = Inr flux
         \<and> length flux = length (Freqs b)
         \<and> (\<forall>i < length (Freqs b). flux ! i = fmul (cal ! i) (Num (On_Data b ! i)))))"
proof (intro conjI impI)
  assume a: "length (Cal_Func env) = length (M31_AntennaTemp env)"
  then have "GBT_calibrated env = Inr (map2 fmul (Cal_Func env) (map Num (M31_AntennaTemp env)))"
    by (simp add: GBT_calibrated_def np_binop_same_length)
  then show "\<exists>flux. GBT_calibrated env = Inr flux
         \<and> length flux = length (M31_AntennaTemp env)
         \<and> (\<forall>i < length flux.
               flux ! i = fmul (Cal_Func env ! i) (Num (M31_AntennaTemp env ! i)))"
    using a by simp
next
  assume a: "length (On_Data b) = length (Freqs b) \<and> Eff_Freqs \<noteq> []
        \<and> length Eff_FD = length Eff_Freqs"
  define cal where "cal = map2 fdiv (map (\<lambda>v. interp_at v (zip Eff_Freqs Eff_FD)) (Freqs b))
                  (Band_smoothed b)"
  have ls: "length (Band_smoothed b) = length (Freqs b)"
    using a by (simp add: Band_smoothed_def length_median_filter)
  have lc: "length cal = length (Freqs b)"
    using ls by (simp add: cal_def)
  have run: "Band_Cal b Eff_Freqs Eff_FD = Inr cal"
    using a by (simp add: Band_Cal_aligned cal_def)
  have val: "\<forall>i < length (Freqs b).
               cal ! i = fdiv (interp_at (Freqs b ! i) (zip Eff_Freqs Eff_FD))
                           (Band_smoothed b ! i)"
    using ls by (simp add: cal_def)
  have fl: "Band_flux b cal = Inr (map2 fmul cal (map Num (On_Data b)))"
    using a lc by (simp add: Band_flux_def np_binop_same_length)
  have "length (map2 fmul cal (map Num (On_Data b))) = length (Freqs b)"
    using a lc by simp
  moreover have "\<forall>i < length (Freqs b).
      map2 fmul cal (map Num (On_Data b)) ! i = fmul (cal ! i) (Num (On_Data b ! i))"
    using a lc by simp
  ultimately show "\<exists>cal flux. Band_Cal b Eff_Freqs Eff_FD = Inr cal
         \<and> (\<forall>i < length (Freqs b).
               cal ! i = fdiv (interp_at (Freqs b ! i) (zip Eff_Freqs Eff_FD))
                           (Band_smoothed b ! i))
         \<and> Band_flux b cal = Inr flux
         \<and> length flux = length (Freqs b)
         \<and> (\<forall>i < length (Freqs b). flux ! i = fmul (cal ! i) (Num (On_Data b ! i)))"
    using run val fl by blast
qed

text \<open>
  The theorem on two channels of either notebook: the multipliers 2, 4 with the antenna
  temperatures 3, 5, and the band with the constant count 4 and the table 0, 8 on the
  grid 0, 4, whose first multiplier is the interpolated 2 divided by 4.
\<close>

theorem calibration_application_elementwise_witness:
  "GBT_calibrated \<lparr>M31_Freqs = [1, 2], M31_AntennaTemp = [3, 5], M31_Sig = [0, 0],
       M31_Ref = [0, 0], M31_SigAccept = [1, 1], M31_RefAccept = [1, 1],
       Cal_Func = [Num 2, Num 4], item = [], mask = [Num 1, Num 1]\<rparr> = Inr [Num 6, Num 20]
   \<and> (\<exists>cal flux. Band_Cal \<lparr>Freqs = [1, 2], On_Data = [4, 4], Off_Data = [0, 0]\<rparr>
          [0, 4] [0, 8] = Inr cal \<and> cal ! 0 = Num (1 / 2)
        \<and> Band_flux \<lparr>Freqs = [1, 2], On_Data = [4, 4], Off_Data = [0, 0]\<rparr> cal = Inr flux
        \<and> length flux = 2 \<and> flux ! 0 = Num 2)"
proof -
  let ?env = "\<lparr>M31_Freqs = [1, 2], M31_AntennaTemp = [3, 5], M31_Sig = [0, 0],
       M31_Ref = [0, 0], M31_SigAccept = [1, 1], M31_RefAccept = [1, 1],
       Cal_Func = [Num 2, Num 4], item = [], mask = [Num 1, Num 1]\<rparr>"
  let ?b = "\<lparr>Freqs = [1, 2], On_Data = [4, 4], Off_Data = [0, 0]\<rparr>"
  note t = calibration_application_elementwise [of ?env ?b "[0, 4]" "[0, 8]"]
  have l: "length (Cal_Func ?env) = length (M31_AntennaTemp ?env)" by simp
  have l': "length (On_Data ?b) = length (Freqs ?b) \<and> [0, 4 :: real] \<noteq> []
      \<and> length [0, 8 :: real] = length [0, 4 :: real]"
    by simp
  have s: "Band_smoothed ?b ! 0 = 4"
    by code_simp
  obtain flux where run: "GBT_calibrated ?env = Inr flux"
    and len: "length flux = length (M31_AntennaTemp ?env)"
    and val: "\<forall>i < length flux. flux ! i = fmul (Cal_Func ?env ! i) (Num (M31_AntennaTemp ?env ! i))"
    using t l by blast
  obtain cal flux' where run': "Band_Cal ?b [0, 4] [0, 8] = Inr cal"
    and val': "\<forall>i < length (Freqs ?b).
        cal ! i = fdiv (interp_at (Freqs ?b ! i) (zip [0, 4] [0, 8])) (Band_smoothed ?b ! i)"
    and fl: "Band_flux ?b cal = Inr flux'"
    and len': "length flux' = length (Freqs ?b)"
    and mul: "\<forall>i < length (Freqs ?b). flux' ! i = fmul (cal ! i) (Num (On_Data ?b ! i))"
    using t l' by blast
  have l2: "length flux = 2" using len by simp
  have "flux ! 0 = Num 6" "flux ! 1 = Num 20"
    using val l2 by simp_all
  then have "flux = [Num 6, Num 20]"
    using l2 by (intro nth_equalityI) (auto simp: less_Suc_eq numeral_2_eq_2)
  moreover have c0: "cal ! 0 = Num (1 / 2)"
    using val' [rule_format, of 0] s by (simp add: fdiv_def)
  moreover have "flux' ! 0 = Num 2"
    using mul [rule_format, of 0] c0 by simp
  ultimately show ?thesis
    using run run' fl len' by simp
qed

end
